theory Spec2Isabelle
  imports Main "HOL-Library.Multiset"
begin

section \<open>Auto-discovery of power profiles (custom\_components/powercalc/discovery.py)\<close>

text \<open>
  A shallow embedding of \<^verbatim>\<open>discovery.py\<close>. Python objects become records, \<^verbatim>\<open>None\<close>
  becomes \<open>None\<close> of an option type, exceptions become the left summand of a sum type,
  and the mutable attribute \<^verbatim>\<open>manually_configured_entities\<close> of the manager is passed
  through every function that reads or writes it. Strings are lists of 8-bit
  characters; case folding is the one of the ASCII letters.
\<close>

subsection \<open>Values\<close>

text \<open>
  The declarative configuration is what the YAML loader hands over: nested dicts, lists
  and scalars. A dict is the list of its items in iteration order (keys of a Python dict
  are pairwise different; no function below relies on it). \<open>YNum\<close> stands for the
  scalars that cannot be iterated (numbers, booleans).
\<close>

datatype yaml =
    YNone
  | YStr string
  | YNum int
  | YList "yaml list"
  | YDict "(string \<times> yaml) list"

datatype error =
    TypeError
  | AttributeError
  | ModelNotSupported
  | OtherError string

datatype EntityCategory = CONFIG | DIAGNOSTIC

record registry_entry =
  entity_id :: string
  domain :: string
  disabled :: bool
  entity_category :: "EntityCategory option"
  device_id :: "string option"
  original_name :: "string option"

record device_entry =
  dev_manufacturer :: "string option"
  dev_model :: "string option"

text \<open>\<^verbatim>\<open>ModelInfo(manufacturer, model_id)\<close>: the manufacturer is whatever the device registry
  holds (possibly \<^verbatim>\<open>None\<close>), the model is always the result of \<^verbatim>\<open>str(...).replace\<close>.\<close>

record model_info =
  manufacturer :: "string option"
  model :: string

record source_entity =
  se_entity_id :: string
  se_unique_id :: "string option"

record power_profile =
  pp_manufacturer :: string
  pp_model :: string
  is_additional_configuration_required :: bool

record config_entry =
  unique_id :: "string option"
  source :: string
  data :: "(string \<times> yaml) list"

text \<open>
  The host (\<^verbatim>\<open>hass\<close>) as far as this module reads it, together with the collaborators
  imported from modules that are not part of this file: the alias table, the values of
  \<^verbatim>\<open>DEVICE_DOMAINS\<close>, \<^verbatim>\<open>create_source_entity\<close>, \<^verbatim>\<open>get_power_profile\<close> and
  \<^verbatim>\<open>PowerProfile.is_entity_domain_supported\<close>. The two awaited collaborators may raise.
\<close>

record hass =
  entities :: "registry_entry list"
  device_registry_get :: "string option \<Rightarrow> device_entry option"
  config_entries :: "config_entry list"
  MANUFACTURER_ALIASES :: "string \<rightharpoonup> string"
  DEVICE_DOMAINS_values :: "string list"
  create_source_entity :: "string \<Rightarrow> error + source_entity"
  get_power_profile :: "model_info \<Rightarrow> error + power_profile"
  is_entity_domain_supported :: "power_profile \<Rightarrow> source_entity \<Rightarrow> bool"

text \<open>
  The \<^verbatim>\<open>DiscoveryManager\<close> instance. \<open>load_count\<close> is not an attribute of the class: it
  counts the calls of \<^verbatim>\<open>_load_manually_configured_entities\<close>, so that "built once" can be
  stated.
\<close>

record discovery_manager =
  ha_config :: "(string \<times> yaml) list"
  manually_configured_entities :: "yaml list option"
  load_count :: nat

definition init_manager :: "(string \<times> yaml) list \<Rightarrow> discovery_manager" where
  "init_manager cfg =
     \<lparr>ha_config = cfg, manually_configured_entities = None, load_count = 0\<rparr>"

subsection \<open>Constants of the imported modules\<close>

text \<open>
  These names are imported by \<^verbatim>\<open>discovery.py\<close> from \<^verbatim>\<open>homeassistant\<close> and from
  \<^verbatim>\<open>const.py\<close> / \<^verbatim>\<open>aliases.py\<close>; the strings are the ones declared there.
\<close>

definition LIGHT_DOMAIN :: string where "LIGHT_DOMAIN = ''light''"
definition SENSOR_DOMAIN :: string where "SENSOR_DOMAIN = ''sensor''"
definition SOURCE_USER :: string where "SOURCE_USER = ''user''"
definition SOURCE_INTEGRATION_DISCOVERY :: string where
  "SOURCE_INTEGRATION_DISCOVERY = ''integration_discovery''"
definition CONF_ENTITY_ID :: string where "CONF_ENTITY_ID = ''entity_id''"
definition CONF_PLATFORM :: string where "CONF_PLATFORM = ''platform''"
definition DOMAIN :: string where "DOMAIN = ''powercalc''"
definition MANUFACTURER_WLED :: string where "MANUFACTURER_WLED = ''WLED''"
definition CONF_MANUFACTURER :: string where "CONF_MANUFACTURER = ''manufacturer''"
definition CONF_MODE :: string where "CONF_MODE = ''mode''"
definition CONF_MODEL :: string where "CONF_MODEL = ''model''"
definition DISCOVERY_POWER_PROFILE :: string where
  "DISCOVERY_POWER_PROFILE = ''power_profile''"
definition DISCOVERY_SOURCE_ENTITY :: string where
  "DISCOVERY_SOURCE_ENTITY = ''source_entity''"
definition DISCOVERY_TYPE :: string where "DISCOVERY_TYPE = ''discovery_type''"

subsection \<open>Python helpers\<close>

text \<open>\<^verbatim>\<open>str(x)\<close> for an optional string: \<^verbatim>\<open>str(None)\<close> is the four letters \<^verbatim>\<open>None\<close>.\<close>

definition py_str :: "string option \<Rightarrow> string" where
  "py_str x = (case x of None \<Rightarrow> ''None'' | Some s \<Rightarrow> s)"

text \<open>Truth value of an optional string: \<^verbatim>\<open>None\<close> and \<^verbatim>\<open>""\<close> are falsy.\<close>

definition truthy :: "string option \<Rightarrow> bool" where
  "truthy x = (case x of None \<Rightarrow> False | Some s \<Rightarrow> s \<noteq> [])"

text \<open>\<^verbatim>\<open>d.get(k)\<close> on a configuration dict: the value, or \<^verbatim>\<open>None\<close>.\<close>

definition dict_get :: "(string \<times> yaml) list \<Rightarrow> string \<Rightarrow> yaml" where
  "dict_get d k = (case map_of d k of None \<Rightarrow> YNone | Some v \<Rightarrow> v)"

text \<open>\<^verbatim>\<open>for item in x\<close>: a list yields its items, a dict its keys, a string its
  characters; \<^verbatim>\<open>None\<close> and numbers raise \<^verbatim>\<open>TypeError\<close>.\<close>

definition py_iter :: "yaml \<Rightarrow> error + yaml list" where
  "py_iter x =
     (case x of
        YList xs \<Rightarrow> Inr xs
      | YDict d \<Rightarrow> Inr (map (\<lambda>(k, v). YStr k) d)
      | YStr s \<Rightarrow> Inr (map (\<lambda>c. YStr [c]) s)
      | YNone \<Rightarrow> Inl TypeError
      | YNum n \<Rightarrow> Inl TypeError)"

text \<open>\<^verbatim>\<open>s.replace("/", "#slash#")\<close>.\<close>

definition replace_slash :: "string \<Rightarrow> string" where
  "replace_slash s = concat (map (\<lambda>c. if c = CHR ''/'' then ''#slash#'' else [c]) s)"

text \<open>\<^verbatim>\<open>re.search("master|segment", s, flags=re.IGNORECASE)\<close>: some position of \<open>s\<close>
  starts, letter case ignored, with one of the two words. Letter case is the one of the
  ASCII letters: names are taken to be ASCII.\<close>

definition lower_char :: "char \<Rightarrow> char" where
  "lower_char c =
     (case map_of (zip ''ABCDEFGHIJKLMNOPQRSTUVWXYZ'' ''abcdefghijklmnopqrstuvwxyz'') c of
        None \<Rightarrow> c
      | Some l \<Rightarrow> l)"

definition starts_with_ci :: "string \<Rightarrow> string \<Rightarrow> bool" where
  "starts_with_ci w s = (map lower_char (take (length w) s) = w)"

fun search_ci :: "string list \<Rightarrow> string \<Rightarrow> bool" where
  "search_ci ws [] = (\<exists>w \<in> set ws. starts_with_ci w [])"
| "search_ci ws (c # cs) = ((\<exists>w \<in> set ws. starts_with_ci w (c # cs)) \<or> search_ci ws cs)"

definition re_search_master_segment :: "string \<Rightarrow> bool" where
  "re_search_master_segment s = search_ci [''master'', ''segment''] s"

subsection \<open>The recursive scan of a platform block\<close>

text \<open>
  \<^verbatim>\<open>_find_entity_ids_in_yaml_config\<close>: the outer loop runs over the items of the dict, the
  inner loop (\<open>find_in_list_items\<close>) over the items of a list value. A value keyed
  \<^verbatim>\<open>"entity_id"\<close> is appended as it is and not descended into; an item of a list is
  descended into only when it is a dict.
\<close>

function (sequential)
  find_entity_ids_in_yaml_config :: "(string \<times> yaml) list \<Rightarrow> yaml list" and
  find_in_list_items :: "yaml list \<Rightarrow> yaml list"
where
  "find_entity_ids_in_yaml_config [] = []"
| "find_entity_ids_in_yaml_config ((key, value) # rest) =
     (if key = ''entity_id'' then [value]
      else (case value of
              YDict d \<Rightarrow> find_entity_ids_in_yaml_config d
            | YList xs \<Rightarrow> find_in_list_items xs
            | _ \<Rightarrow> []))
     @ find_entity_ids_in_yaml_config rest"
| "find_in_list_items [] = []"
| "find_in_list_items (item # items) =
     (case item of
        YDict d \<Rightarrow> find_entity_ids_in_yaml_config d
      | _ \<Rightarrow> [])
     @ find_in_list_items items"
  by pat_completeness auto
termination
  by (relation "measure (\<lambda>x. case x of
                    Inl d \<Rightarrow> size_list (size_prod (\<lambda>_. 0) size) d
                  | Inr xs \<Rightarrow> size_list size xs)") auto

subsection \<open>Identity resolution\<close>

definition has_manufacturer_and_model_information :: "hass \<Rightarrow> registry_entry \<Rightarrow> bool" where
  "has_manufacturer_and_model_information h entity_entry =
     (case device_registry_get h (device_id entity_entry) of
        None \<Rightarrow> False
      | Some device_entry \<Rightarrow>
          if length (py_str (dev_manufacturer device_entry)) = 0
             \<or> length (py_str (dev_model device_entry)) = 0
          then False
          else True)"

text \<open>\<^verbatim>\<open>MANUFACTURER_ALIASES.get(manufacturer)\<close>; the keys of the table are strings, so
  \<^verbatim>\<open>None\<close> is never found.\<close>

definition aliases_get :: "hass \<Rightarrow> string option \<Rightarrow> string option" where
  "aliases_get h m = (case m of None \<Rightarrow> None | Some s \<Rightarrow> MANUFACTURER_ALIASES h s)"

text \<open>The second look-up of the device is written as in the source; reading an attribute
  of \<^verbatim>\<open>None\<close> would raise \<^verbatim>\<open>AttributeError\<close>.\<close>

definition autodiscover_model :: "hass \<Rightarrow> registry_entry option \<Rightarrow> error + model_info option" where
  "autodiscover_model h entity_entry_opt =
     (case entity_entry_opt of
        None \<Rightarrow> Inr None
      | Some entity_entry \<Rightarrow>
          if \<not> has_manufacturer_and_model_information h entity_entry then Inr None
          else (case device_registry_get h (device_id entity_entry) of
                  None \<Rightarrow> Inl AttributeError
                | Some device_entry \<Rightarrow>
                    let model_id = dev_model device_entry;
                        manufacturer0 = dev_manufacturer device_entry;
                        manufacturer1 =
                          (if truthy (aliases_get h manufacturer0)
                           then aliases_get h manufacturer0
                           else manufacturer0);
                        model_id1 = replace_slash (py_str model_id)
                    in Inr (Some \<lparr>manufacturer = manufacturer1, model = model_id1\<rparr>)))"

subsection \<open>Dispatching a discovery\<close>

text \<open>The values stored in a discovery payload, and the two calls that leave the module:
  \<^verbatim>\<open>discovery_flow.async_create_flow(hass, domain, context={"source": ...}, data=...)\<close> and
  \<^verbatim>\<open>discovery.async_load_platform(hass, component, platform, discovered, hass_config)\<close>.\<close>

datatype dval =
    VStr string
  | VSourceEntity source_entity
  | VPowerProfile power_profile
  | CalculationStrategy_WLED
  | PowercalcDiscoveryType_LIBRARY

datatype dispatch =
    CreateFlow string string "(string \<times> dval) list"
  | LoadPlatform string string "(string \<times> dval) list" "(string \<times> yaml) list"

text \<open>\<^verbatim>\<open>d[k] = v\<close> on a dict kept as its item list: an existing key keeps its place.\<close>

fun dict_set :: "(string \<times> dval) list \<Rightarrow> string \<Rightarrow> dval \<Rightarrow> (string \<times> dval) list" where
  "dict_set [] k v = [(k, v)]"
| "dict_set ((k', v') # d) k v = (if k' = k then (k, v) # d else (k', v') # dict_set d k v)"

fun dict_update :: "(string \<times> dval) list \<Rightarrow> (string \<times> dval) list \<Rightarrow> (string \<times> dval) list" where
  "dict_update d [] = d"
| "dict_update d ((k, v) # kvs) = dict_update (dict_set d k v) kvs"

fun dispatch_data :: "dispatch \<Rightarrow> (string \<times> dval) list" where
  "dispatch_data (CreateFlow flow_domain flow_source d) = d"
| "dispatch_data (LoadPlatform component platform d hass_config) = d"

definition init_entity_discovery ::
  "hass \<Rightarrow> discovery_manager \<Rightarrow> source_entity \<Rightarrow> power_profile option
     \<Rightarrow> (string \<times> dval) list option \<Rightarrow> dispatch list" where
  "init_entity_discovery h mgr src power_profile_opt extra_discovery_data =
     (let existing_entries =
            filter (\<lambda>entry. unique_id entry = se_unique_id src
                           \<or> unique_id entry = Some (''pc_'' @ py_str (se_unique_id src)))
                   (config_entries h)
      in if existing_entries \<noteq> [] then []
         else
           let discovery_data0 =
                 [(CONF_ENTITY_ID, VStr (se_entity_id src)),
                  (DISCOVERY_SOURCE_ENTITY, VSourceEntity src)];
               discovery_data1 =
                 (case power_profile_opt of
                    None \<Rightarrow> discovery_data0
                  | Some p \<Rightarrow>
                      dict_set
                        (dict_set
                           (dict_set discovery_data0 DISCOVERY_POWER_PROFILE (VPowerProfile p))
                           CONF_MANUFACTURER (VStr (pp_manufacturer p)))
                        CONF_MODEL (VStr (pp_model p)));
               discovery_data2 =
                 (case extra_discovery_data of
                    None \<Rightarrow> discovery_data1
                  | Some extra \<Rightarrow>
                      if extra \<noteq> [] then dict_update discovery_data1 extra
                      else discovery_data1)
           in CreateFlow DOMAIN SOURCE_INTEGRATION_DISCOVERY discovery_data2
              # (case power_profile_opt of
                   None \<Rightarrow> []
                 | Some p \<Rightarrow>
                     if \<not> is_additional_configuration_required p
                     then [LoadPlatform SENSOR_DOMAIN DOMAIN
                             [(CONF_ENTITY_ID, VStr (se_entity_id src)),
                              (DISCOVERY_SOURCE_ENTITY, VSourceEntity src),
                              (DISCOVERY_POWER_PROFILE, VPowerProfile p),
                              (DISCOVERY_TYPE, PowercalcDiscoveryType_LIBRARY)]
                             (ha_config mgr)]
                     else []))"

subsection \<open>The index of manually configured entities\<close>

definition is_platform_entry :: "yaml \<Rightarrow> bool" where
  "is_platform_entry item =
     (case item of YDict d \<Rightarrow> dict_get d CONF_PLATFORM = YStr DOMAIN | _ \<Rightarrow> False)"

fun scan_platform_entries :: "yaml list \<Rightarrow> yaml list" where
  "scan_platform_entries [] = []"
| "scan_platform_entries (entry # entries) =
     (case entry of YDict d \<Rightarrow> find_entity_ids_in_yaml_config d | _ \<Rightarrow> [])
     @ scan_platform_entries entries"

definition load_manually_configured_entities ::
  "hass \<Rightarrow> discovery_manager \<Rightarrow> error + yaml list" where
  "load_manually_configured_entities h mgr =
     (let from_config_entries =
            map (\<lambda>entry. dict_get (data entry) CONF_ENTITY_ID)
                (filter (\<lambda>entry. source entry = SOURCE_USER) (config_entries h))
      in if SENSOR_DOMAIN \<in> fst ` set (ha_config mgr) then
           (case py_iter (dict_get (ha_config mgr) SENSOR_DOMAIN) of
              Inl e \<Rightarrow> Inl e
            | Inr sensor_items \<Rightarrow>
                Inr (scan_platform_entries (filter is_platform_entry sensor_items)
                     @ from_config_entries))
         else Inr from_config_entries)"

text \<open>\<^verbatim>\<open>_is_user_configured\<close>: \<^verbatim>\<open>if not self.manually_configured_entities\<close> holds for
  \<^verbatim>\<open>None\<close> and for the empty list; only then the index is loaded and stored.\<close>

definition is_user_configured ::
  "hass \<Rightarrow> discovery_manager \<Rightarrow> string \<Rightarrow> (error + bool) \<times> discovery_manager" where
  "is_user_configured h mgr eid =
     (case manually_configured_entities mgr of
        Some (x # xs) \<Rightarrow> (Inr (YStr eid \<in> set (x # xs)), mgr)
      | _ \<Rightarrow>
          (case load_manually_configured_entities h mgr of
             Inl e \<Rightarrow> (Inl e, mgr\<lparr>load_count := load_count mgr + 1\<rparr>)
           | Inr loaded \<Rightarrow>
               (Inr (YStr eid \<in> set loaded),
                mgr\<lparr>manually_configured_entities := Some loaded,
                    load_count := load_count mgr + 1\<rparr>)))"

subsection \<open>The sweep\<close>

definition should_process_entity ::
  "hass \<Rightarrow> discovery_manager \<Rightarrow> registry_entry \<Rightarrow> (error + bool) \<times> discovery_manager" where
  "should_process_entity h mgr entity_entry =
     (if disabled entity_entry then (Inr False, mgr)
      else if domain entity_entry \<notin> set (DEVICE_DOMAINS_values h) then (Inr False, mgr)
      else if entity_category entity_entry \<in> set [Some CONFIG, Some DIAGNOSTIC]
        then (Inr False, mgr)
      else (case is_user_configured h mgr (entity_id entity_entry) of
              (Inl e, mgr') \<Rightarrow> (Inl e, mgr')
            | (Inr has_user_config, mgr') \<Rightarrow>
                if has_user_config then (Inr False, mgr') else (Inr True, mgr')))"

text \<open>The body of the \<^verbatim>\<open>for\<close> loop of \<^verbatim>\<open>start_discovery\<close> after the eligibility check
  (from the call of \<^verbatim>\<open>autodiscover_model\<close> to the end). Either an exception leaves the
  body, or the body ends, by \<^verbatim>\<open>continue\<close> or at its last line, after the listed
  dispatches. The manager is only read here: its \<^verbatim>\<open>ha_config\<close> goes into the legacy
  payload.\<close>

definition discover_entity ::
  "hass \<Rightarrow> discovery_manager \<Rightarrow> registry_entry \<Rightarrow> error + dispatch list" where
  "discover_entity h mgr entity_entry =
     (case autodiscover_model h (Some entity_entry) of
        Inl e \<Rightarrow> Inl e
      | Inr None \<Rightarrow> Inr []
      | Inr (Some mi) \<Rightarrow>
          if \<not> truthy (manufacturer mi) \<or> model mi = [] then Inr []
          else
            (case create_source_entity h (entity_id entity_entry) of
               Inl e \<Rightarrow> Inl e
             | Inr src \<Rightarrow>
                 if manufacturer mi = Some MANUFACTURER_WLED
                    \<and> domain entity_entry = LIGHT_DOMAIN
                    \<and> \<not> re_search_master_segment (py_str (original_name entity_entry))
                 then
                   Inr (init_entity_discovery h mgr src None
                          (Some [(CONF_MODE, CalculationStrategy_WLED),
                                 (CONF_MANUFACTURER, VStr (py_str (manufacturer mi))),
                                 (CONF_MODEL, VStr (model mi))]))
                 else
                   (case get_power_profile h mi of
                      Inl ModelNotSupported \<Rightarrow> Inr []
                    | Inl e \<Rightarrow> Inl e
                    | Inr p \<Rightarrow>
                        if \<not> is_entity_domain_supported h p src then Inr []
                        else Inr (init_entity_discovery h mgr src (Some p) (Some [])))))"

text \<open>One pass through the whole body: the eligibility check, which may load the index
  into the manager, then the rest.\<close>

definition process_entity ::
  "hass \<Rightarrow> discovery_manager \<Rightarrow> registry_entry
     \<Rightarrow> (error + dispatch list) \<times> discovery_manager" where
  "process_entity h mgr entity_entry =
     (case should_process_entity h mgr entity_entry of
        (Inl e, mgr') \<Rightarrow> (Inl e, mgr')
      | (Inr ok, mgr') \<Rightarrow>
          if \<not> ok then (Inr [], mgr')
          else (discover_entity h mgr' entity_entry, mgr'))"

text \<open>What a sweep leaves behind: the dispatches in the order they were made, each with
  the registry entry the loop was at, the exception that ended the sweep (if any), and
  the manager.\<close>

record sweep_result =
  dispatched :: "(registry_entry \<times> dispatch) list"
  raised :: "error option"
  manager :: discovery_manager

fun discovery_loop :: "hass \<Rightarrow> discovery_manager \<Rightarrow> registry_entry list \<Rightarrow> sweep_result" where
  "discovery_loop h mgr [] = \<lparr>dispatched = [], raised = None, manager = mgr\<rparr>"
| "discovery_loop h mgr (entity_entry # rest) =
     (case process_entity h mgr entity_entry of
        (Inl e, mgr') \<Rightarrow> \<lparr>dispatched = [], raised = Some e, manager = mgr'\<rparr>
      | (Inr ds, mgr') \<Rightarrow>
          (let r = discovery_loop h mgr' rest
           in r\<lparr>dispatched := map (Pair entity_entry) ds @ dispatched r\<rparr>))"

definition start_discovery :: "hass \<Rightarrow> discovery_manager \<Rightarrow> sweep_result" where
  "start_discovery h mgr = discovery_loop h mgr (entities h)"

subsection \<open>What a manager answers\<close>

text \<open>The index a membership test is answered from when it starts at manager \<open>mgr\<close>:
  the cached list when it is non-empty, else the freshly loaded one (or the exception of
  loading it). Two managers have the same view when they agree on it and on
  \<^verbatim>\<open>ha_config\<close>.\<close>

definition effective_index :: "hass \<Rightarrow> discovery_manager \<Rightarrow> error + yaml list" where
  "effective_index h mgr =
     (case manually_configured_entities mgr of
        Some (x # xs) \<Rightarrow> Inr (x # xs)
      | _ \<Rightarrow> load_manually_configured_entities h mgr)"

definition same_view :: "hass \<Rightarrow> discovery_manager \<Rightarrow> discovery_manager \<Rightarrow> bool" where
  "same_view h m1 m2 =
     (ha_config m1 = ha_config m2 \<and> effective_index h m1 = effective_index h m2)"

text \<open>The first three tests of \<^verbatim>\<open>should_process_entity\<close>: an entry that passes them
  reaches the membership test of \<^verbatim>\<open>_is_user_configured\<close>.\<close>

definition reaches_check :: "hass \<Rightarrow> registry_entry \<Rightarrow> bool" where
  "reaches_check h e =
     (\<not> disabled e \<and> domain e \<in> set (DEVICE_DOMAINS_values h)
      \<and> entity_category e \<notin> set [Some CONFIG, Some DIAGNOSTIC])"

text \<open>The dispatches of one pass through the loop body; none when an exception left it.\<close>

definition dispatches_of :: "error + dispatch list \<Rightarrow> dispatch list" where
  "dispatches_of r = (case r of Inl e \<Rightarrow> [] | Inr ds \<Rightarrow> ds)"

text \<open>The test \<^verbatim>\<open>not model_info or not model_info.manufacturer or not model_info.model\<close>
  of \<^verbatim>\<open>start_discovery\<close>.\<close>

definition falsy_identity :: "model_info option \<Rightarrow> bool" where
  "falsy_identity mo =
     (case mo of None \<Rightarrow> True | Some mi \<Rightarrow> \<not> truthy (manufacturer mi) \<or> model mi = [])"

subsection \<open>The scan as the specification words it\<close>

text \<open>
  The specification asks for every value keyed literally \<open>entity_id\<close>, at any nesting
  depth, across dict-valued and list-valued branches. \<open>spec_entity_id_values\<close> is that
  collection, written from these words and not from the code: it descends into every
  dict and every list, also below an \<open>entity_id\<close> key. It is what the scan of the code is
  compared with.
\<close>

function (sequential)
  spec_entity_id_values :: "yaml \<Rightarrow> yaml list" and
  spec_values_in_items :: "(string \<times> yaml) list \<Rightarrow> yaml list" and
  spec_values_in_list :: "yaml list \<Rightarrow> yaml list"
where
  "spec_entity_id_values (YDict d) = spec_values_in_items d"
| "spec_entity_id_values (YList xs) = spec_values_in_list xs"
| "spec_entity_id_values _ = []"
| "spec_values_in_items [] = []"
| "spec_values_in_items ((key, value) # rest) =
     (if key = ''entity_id'' then [value] else [])
     @ spec_entity_id_values value @ spec_values_in_items rest"
| "spec_values_in_list [] = []"
| "spec_values_in_list (item # items) = spec_entity_id_values item @ spec_values_in_list items"
  by pat_completeness auto
termination
  by (relation "measure (\<lambda>x. case x of
                    Inl v \<Rightarrow> size v
                  | Inr (Inl d) \<Rightarrow> size_list (size_prod (\<lambda>_. 0) size) d
                  | Inr (Inr xs) \<Rightarrow> size_list size xs)") auto

text \<open>The places the scan of the code does not look at hold no \<open>entity_id\<close> key: the
  value of an \<open>entity_id\<close> key, and an item of a list that is not a dict (so a list
  directly inside a list).\<close>

function (sequential)
  scan_reaches_all :: "(string \<times> yaml) list \<Rightarrow> bool" and
  scan_reaches_all_items :: "yaml list \<Rightarrow> bool"
where
  "scan_reaches_all [] = True"
| "scan_reaches_all ((key, value) # rest) =
     ((if key = ''entity_id'' then spec_entity_id_values value = []
       else (case value of
               YDict d \<Rightarrow> scan_reaches_all d
             | YList xs \<Rightarrow> scan_reaches_all_items xs
             | _ \<Rightarrow> True))
      \<and> scan_reaches_all rest)"
| "scan_reaches_all_items [] = True"
| "scan_reaches_all_items (item # items) =
     ((case item of
         YDict d \<Rightarrow> scan_reaches_all d
       | _ \<Rightarrow> spec_entity_id_values item = [])
      \<and> scan_reaches_all_items items)"
  by pat_completeness auto
termination
  by (relation "measure (\<lambda>x. case x of
                    Inl d \<Rightarrow> size_list (size_prod (\<lambda>_. 0) size) d
                  | Inr xs \<Rightarrow> size_list size xs)") auto

subsection \<open>Positions in a platform block\<close>




subsection \<open>A small installation used for the concrete instances\<close>

definition ex_devices :: "string option \<Rightarrow> device_entry option" where
  "ex_devices d =
     (if d = Some ''dev_wled''
        then Some \<lparr>dev_manufacturer = Some ''WLED'', dev_model = Some ''FOSS''\<rparr>
      else if d = Some ''dev_ikea''
        then Some \<lparr>dev_manufacturer = Some ''Ikea'', dev_model = Some ''TRADFRI/bulb''\<rparr>
      else if d = Some ''dev_anon''
        then Some \<lparr>dev_manufacturer = None, dev_model = Some ''LCT001''\<rparr>
      else None)"

definition ex_profile :: power_profile where
  "ex_profile =
     \<lparr>pp_manufacturer = ''ikea'', pp_model = ''TRADFRI#slash#bulb'',
      is_additional_configuration_required = False\<rparr>"

definition ex_hass :: hass where
  "ex_hass =
     \<lparr>entities = [],
      device_registry_get = ex_devices,
      config_entries = [],
      MANUFACTURER_ALIASES = [''Ikea'' \<mapsto> ''IKEA''],
      DEVICE_DOMAINS_values = [''light'', ''switch''],
      create_source_entity =
        (\<lambda>eid. Inr \<lparr>se_entity_id = eid, se_unique_id = Some (''uid_'' @ eid)\<rparr>),
      get_power_profile =
        (\<lambda>mi. if mi = \<lparr>manufacturer = Some ''IKEA'', model = ''TRADFRI#slash#bulb''\<rparr>
               then Inr ex_profile else Inl ModelNotSupported),
      is_entity_domain_supported = (\<lambda>p s. True)\<rparr>"

definition ex_entry :: "string \<Rightarrow> string \<Rightarrow> string \<Rightarrow> registry_entry" where
  "ex_entry eid dev name =
     \<lparr>entity_id = eid, domain = ''light'', disabled = False, entity_category = None,
      device_id = Some dev, original_name = Some name\<rparr>"

definition ex_bulb :: registry_entry where
  "ex_bulb = ex_entry ''light.bulb'' ''dev_ikea'' ''Bulb''"

definition ex_strip :: registry_entry where
  "ex_strip = ex_entry ''light.strip'' ''dev_wled'' ''Living Room Strip''"

definition ex_segment :: registry_entry where
  "ex_segment = ex_entry ''light.strip_segment_1'' ''dev_wled'' ''Light Strip Segment 1''"

definition ex_anon :: registry_entry where
  "ex_anon = ex_entry ''light.anon'' ''dev_anon'' ''Lamp''"

definition ex_hass_failing :: hass where
  "ex_hass_failing =
     ex_hass\<lparr>entities := [ex_strip, ex_bulb],
             create_source_entity :=
               (\<lambda>eid. if eid = ''light.strip'' then Inl (OtherError ''source entity'')
                      else Inr \<lparr>se_entity_id = eid, se_unique_id = Some (''uid_'' @ eid)\<rparr>)\<rparr>"

definition ex_hass_library_failing :: hass where
  "ex_hass_library_failing =
     ex_hass\<lparr>entities := [ex_segment, ex_bulb],
             get_power_profile :=
               (\<lambda>mi. if manufacturer mi = Some ''WLED'' then Inl (OtherError ''library'')
                     else if mi = \<lparr>manufacturer = Some ''IKEA'', model = ''TRADFRI#slash#bulb''\<rparr>
                     then Inr ex_profile else Inl ModelNotSupported)\<rparr>"

definition ex_hass_configured :: hass where
  "ex_hass_configured =
     ex_hass\<lparr>entities := [ex_strip],
             config_entries :=
               [\<lparr>unique_id = Some ''uid_light.strip'', source = ''integration_discovery'',
                 data = [(''entity_id'', YStr ''light.strip'')]\<rparr>]\<rparr>"

definition ex_hass_any_profile :: hass where
  "ex_hass_any_profile = ex_hass\<lparr>get_power_profile := (\<lambda>mi. Inr ex_profile)\<rparr>"



definition ex_user_entry :: "string \<Rightarrow> config_entry" where
  "ex_user_entry eid =
     \<lparr>unique_id = Some (''manual_'' @ eid), source = ''user'',
      data = [(''entity_id'', YStr eid), (''mode'', YStr ''fixed'')]\<rparr>"

definition ex_hass_before :: hass where
  "ex_hass_before =
     ex_hass\<lparr>entities := [ex_strip, ex_bulb],
             config_entries := [ex_user_entry ''light.strip'']\<rparr>"

definition ex_hass_after :: hass where
  "ex_hass_after =
     ex_hass\<lparr>entities := [ex_strip, ex_bulb],
             config_entries := [ex_user_entry ''light.strip'', ex_user_entry ''light.bulb'']\<rparr>"

definition ex_block :: "(string \<times> yaml) list" where
  "ex_block =
     [(''platform'', YStr ''powercalc''),
      (''entity_id'', YStr ''light.a''),
      (''fixed'', YDict [(''power'', YNum 20)]),
      (''entities'',
       YList [YDict [(''entity_id'', YStr ''light.b'')],
              YStr ''comment'',
              YDict [(''create_group'', YStr ''inner''),
                     (''entities'', YList [YDict [(''entity_id'', YStr ''light.c'')]])]])]"

definition ex_block_hidden :: "(string \<times> yaml) list" where
  "ex_block_hidden =
     [(''platform'', YStr ''powercalc''),
      (''entities'', YList [YList [YDict [(''entity_id'', YStr ''light.a'')]]])]"



section \<open>Properties\<close>

lemmas ex_defs =
  ex_hass_def ex_devices_def ex_profile_def ex_entry_def ex_bulb_def ex_strip_def
  ex_segment_def ex_anon_def init_manager_def

lemmas eval_defs =
  start_discovery_def process_entity_def should_process_entity_def is_user_configured_def
  load_manually_configured_entities_def discover_entity_def autodiscover_model_def
  has_manufacturer_and_model_information_def aliases_get_def init_entity_discovery_def
  is_platform_entry_def dict_get_def py_iter_def Let_def

lemmas key_defs =
  CONF_ENTITY_ID_def CONF_MANUFACTURER_def CONF_MODE_def CONF_MODEL_def
  DISCOVERY_POWER_PROFILE_def DISCOVERY_SOURCE_ENTITY_def DISCOVERY_TYPE_def

subsection \<open>Identity resolution\<close>

lemma replace_slash_Nil [simp]: "replace_slash [] = []"
  by (simp add: replace_slash_def)

lemma replace_slash_Cons [simp]:
  "replace_slash (c # s) = (if c = CHR ''/'' then ''#slash#'' else [c]) @ replace_slash s"
  by (simp add: replace_slash_def)

lemma slash_not_in_replace_slash: "CHR ''/'' \<notin> set (replace_slash s)"
  by (induction s) auto

lemma replace_slash_nonempty: "s \<noteq> [] \<Longrightarrow> replace_slash s \<noteq> []"
  by (cases s) auto

lemma py_str_simps [simp]: "py_str None = ''None''" "py_str (Some s) = s"
  by (simp_all add: py_str_def)

lemma truthy_simps [simp]: "truthy None = False" "truthy (Some s) = (s \<noteq> [])"
  by (simp_all add: truthy_def)

text \<open>The second look-up of the device cannot fail: the first one, in
  \<open>has_manufacturer_and_model_information\<close>, has found the device.\<close>

lemma autodiscover_model_never_raises: "autodiscover_model h e \<noteq> Inl err"
  by (auto simp: autodiscover_model_def has_manufacturer_and_model_information_def Let_def
      split: option.splits)




subsection \<open>Dispatch\<close>

text \<open>
  Claim C2. If some configuration entry of the domain has a unique id equal to the unique
  id of the source entity, or equal to \<open>pc_\<close> followed by it, then
  \<open>init_entity_discovery\<close> dispatches nothing: neither the discovery flow nor the legacy
  platform load, whatever the profile and the extra data.
\<close>

theorem init_entity_discovery_dedup:
  assumes "c \<in> set (config_entries h)"
    and "unique_id c = se_unique_id src
         \<or> unique_id c = Some (''pc_'' @ py_str (se_unique_id src))"
  shows "init_entity_discovery h mgr src power_profile_opt extra = []"
proof -
  from assms
  have "filter (\<lambda>entry. unique_id entry = se_unique_id src
                  \<or> unique_id entry = Some (''pc_'' @ py_str (se_unique_id src)))
          (config_entries h) \<noteq> []"
    by (auto simp: filter_empty_conv)
  then show ?thesis
    by (simp add: init_entity_discovery_def Let_def)
qed

theorem init_entity_discovery_dedup_witness:
  "init_entity_discovery
     (ex_hass\<lparr>config_entries :=
        [\<lparr>unique_id = Some ''pc_uid_light.bulb'', source = ''integration_discovery'',
          data = []\<rparr>]\<rparr>)
     (init_manager [])
     \<lparr>se_entity_id = ''light.bulb'', se_unique_id = Some ''uid_light.bulb''\<rparr>
     (Some ex_profile) (Some []) = []"
  using init_entity_discovery_dedup [of
      "\<lparr>unique_id = Some ''pc_uid_light.bulb'', source = ''integration_discovery'', data = []\<rparr>"
      "ex_hass\<lparr>config_entries :=
        [\<lparr>unique_id = Some ''pc_uid_light.bulb'', source = ''integration_discovery'',
          data = []\<rparr>]\<rparr>"
      "\<lparr>se_entity_id = ''light.bulb'', se_unique_id = Some ''uid_light.bulb''\<rparr>"
      "init_manager []" "Some ex_profile" "Some []"]
  by simp

subsection \<open>The answers of a manager do not change during a sweep\<close>

text \<open>Loading reads \<^verbatim>\<open>ha_config\<close> and the configuration entries only; a membership test
  is answered from the effective index and leaves it as it was.\<close>

lemma load_ignores_cache [simp]:
  "load_manually_configured_entities h (mgr\<lparr>manually_configured_entities := x\<rparr>)
     = load_manually_configured_entities h mgr"
  "load_manually_configured_entities h (mgr\<lparr>load_count := n\<rparr>)
     = load_manually_configured_entities h mgr"
  by (simp_all add: load_manually_configured_entities_def cong: if_cong)

lemma same_view_refl [simp]: "same_view h m m"
  by (simp add: same_view_def)

lemma same_view_sym: "same_view h m1 m2 \<Longrightarrow> same_view h m2 m1"
  by (simp add: same_view_def)

lemma same_view_trans: "same_view h m1 m2 \<Longrightarrow> same_view h m2 m3 \<Longrightarrow> same_view h m1 m3"
  by (simp add: same_view_def)

lemma is_user_configured_fst:
  "fst (is_user_configured h mgr eid)
     = (case effective_index h mgr of Inl e \<Rightarrow> Inl e | Inr l \<Rightarrow> Inr (YStr eid \<in> set l))"
  by (simp add: is_user_configured_def effective_index_def
      split: option.splits list.splits sum.splits)

lemma is_user_configured_view:
  "same_view h (snd (is_user_configured h mgr eid)) mgr"
  by (auto simp: is_user_configured_def effective_index_def same_view_def
      split: option.splits list.splits sum.splits)

lemma should_process_entity_fst:
  "fst (should_process_entity h mgr e)
     = (if \<not> reaches_check h e then Inr False
        else (case effective_index h mgr of
                Inl err \<Rightarrow> Inl err
              | Inr l \<Rightarrow> Inr (YStr (entity_id e) \<notin> set l)))"
proof -
  have "is_user_configured h mgr (entity_id e)
          = (fst (is_user_configured h mgr (entity_id e)),
             snd (is_user_configured h mgr (entity_id e)))"
    by simp
  then show ?thesis
    unfolding should_process_entity_def reaches_check_def
    by (auto simp: is_user_configured_fst split: sum.splits prod.splits)
qed

lemma should_process_entity_view:
  "same_view h (snd (should_process_entity h mgr e)) mgr"
  using is_user_configured_view [of h mgr "entity_id e"]
  by (auto simp: should_process_entity_def split: sum.splits prod.splits)

lemma init_entity_discovery_cong:
  "ha_config m1 = ha_config m2 \<Longrightarrow>
   init_entity_discovery h m1 src p x = init_entity_discovery h m2 src p x"
  by (simp add: init_entity_discovery_def Let_def cong: if_cong option.case_cong)

lemma discover_entity_cong:
  assumes "ha_config m1 = ha_config m2"
  shows "discover_entity h m1 e = discover_entity h m2 e"
  unfolding discover_entity_def
  by (simp add: init_entity_discovery_cong [OF assms]
      cong: sum.case_cong option.case_cong if_cong error.case_cong)

lemma process_entity_view: "same_view h (snd (process_entity h mgr e)) mgr"
  using should_process_entity_view [of h mgr e]
  by (auto simp: process_entity_def split: sum.splits prod.splits)

lemma process_entity_fst:
  "fst (process_entity h mgr e)
     = (case fst (should_process_entity h mgr e) of
          Inl err \<Rightarrow> Inl err
        | Inr ok \<Rightarrow> if ok then discover_entity h mgr e else Inr [])"
proof -
  obtain r mgr' where sp: "should_process_entity h mgr e = (r, mgr')"
    by (cases "should_process_entity h mgr e")
  with should_process_entity_view [of h mgr e] have "ha_config mgr' = ha_config mgr"
    by (simp add: same_view_def)
  then have "discover_entity h mgr' e = discover_entity h mgr e"
    by (rule discover_entity_cong)
  with sp show ?thesis
    by (simp add: process_entity_def split: sum.splits)
qed

lemma process_entity_cong:
  assumes "same_view h m1 m2"
  shows "fst (process_entity h m1 e) = fst (process_entity h m2 e)"
proof -
  from assms have c: "ha_config m1 = ha_config m2"
    and i: "effective_index h m1 = effective_index h m2"
    by (simp_all add: same_view_def)
  from c have "discover_entity h m1 e = discover_entity h m2 e"
    by (rule discover_entity_cong)
  with i show ?thesis
    by (simp add: process_entity_fst should_process_entity_fst split: sum.splits)
qed

lemma discovery_loop_cong:
  "same_view h m1 m2 \<Longrightarrow>
   dispatched (discovery_loop h m1 es) = dispatched (discovery_loop h m2 es)
   \<and> raised (discovery_loop h m1 es) = raised (discovery_loop h m2 es)"
proof (induction es arbitrary: m1 m2)
  case Nil
  then show ?case by simp
next
  case (Cons e es)
  obtain r1 n1 where p1: "process_entity h m1 e = (r1, n1)"
    by (cases "process_entity h m1 e")
  obtain r2 n2 where p2: "process_entity h m2 e = (r2, n2)"
    by (cases "process_entity h m2 e")
  from process_entity_cong [OF Cons.prems, of e] p1 p2 have r: "r1 = r2" by simp
  from process_entity_view [of h m1 e] p1 have v1: "same_view h n1 m1" by simp
  from process_entity_view [of h m2 e] p2 have v2: "same_view h n2 m2" by simp
  have "same_view h n1 n2"
    using v1 v2 Cons.prems by (simp add: same_view_def)
  from Cons.IH [OF this] p1 p2 r show ?case
    by (simp add: Let_def split: sum.splits)
qed

lemma discovery_loop_view: "same_view h (manager (discovery_loop h mgr es)) mgr"
proof (induction es arbitrary: mgr)
  case Nil
  then show ?case by simp
next
  case (Cons e es)
  obtain r n where p: "process_entity h mgr e = (r, n)"
    by (cases "process_entity h mgr e")
  from process_entity_view [of h mgr e] p have v: "same_view h n mgr" by simp
  show ?case
  proof (cases r)
    case (Inl err)
    with p v show ?thesis by simp
  next
    case (Inr ds)
    with p same_view_trans [OF Cons.IH [of n] v] show ?thesis
      by (simp add: Let_def)
  qed
qed

subsection \<open>Running the sweep again\<close>

text \<open>
  Claim C1, as amended. With the environment unchanged, a second run of the sweep on the
  manager the first run has left makes exactly the dispatches of the first run, in the
  same order, and ends with the same exception, if any. So the second run makes no
  dispatch only when the first made none.
\<close>

theorem sweep_rerun_same:
  "dispatched (start_discovery h (manager (start_discovery h mgr)))
     = dispatched (start_discovery h mgr)
   \<and> raised (start_discovery h (manager (start_discovery h mgr)))
     = raised (start_discovery h mgr)"
  unfolding start_discovery_def
  by (rule discovery_loop_cong) (rule discovery_loop_view)

theorem sweep_rerun_same_witness:
  "dispatched (start_discovery (ex_hass\<lparr>entities := [ex_strip, ex_bulb]\<rparr>)
      (manager (start_discovery (ex_hass\<lparr>entities := [ex_strip, ex_bulb]\<rparr>) (init_manager []))))
     = dispatched (start_discovery (ex_hass\<lparr>entities := [ex_strip, ex_bulb]\<rparr>) (init_manager []))
   \<and> raised (start_discovery (ex_hass\<lparr>entities := [ex_strip, ex_bulb]\<rparr>)
      (manager (start_discovery (ex_hass\<lparr>entities := [ex_strip, ex_bulb]\<rparr>) (init_manager []))))
     = raised (start_discovery (ex_hass\<lparr>entities := [ex_strip, ex_bulb]\<rparr>) (init_manager []))"
  by (rule sweep_rerun_same)

text \<open>One light of a model the library knows, no configuration entry: the second run
  dispatches the flow and the legacy platform load for it again.\<close>

theorem sweep_rerun_counterexample:
  "map (entity_id \<circ> fst)
     (dispatched (start_discovery (ex_hass\<lparr>entities := [ex_bulb]\<rparr>)
        (manager (start_discovery (ex_hass\<lparr>entities := [ex_bulb]\<rparr>) (init_manager [])))))
     = [''light.bulb'', ''light.bulb'']"
  by (simp add: eval_defs ex_defs SENSOR_DOMAIN_def LIGHT_DOMAIN_def MANUFACTURER_WLED_def)

subsection \<open>What a sweep dispatches, entry by entry\<close>

text \<open>Every dispatch of a sweep is one of the pass for its registry entry, as computed
  from the manager the sweep started with; a sweep that ends without exception has made
  the dispatches of every entry; an exception that ends a sweep is the one of some pass.\<close>

lemma dispatches_of_simps [simp]:
  "dispatches_of (Inl e) = []" "dispatches_of (Inr ds) = ds"
  by (simp_all add: dispatches_of_def)

lemma dispatched_loop_mem:
  "(e, d) \<in> set (dispatched (discovery_loop h mgr es)) \<Longrightarrow>
   e \<in> set es \<and> d \<in> set (dispatches_of (fst (process_entity h mgr e)))"
proof (induction es arbitrary: mgr)
  case Nil
  then show ?case by simp
next
  case (Cons a es)
  obtain r n where p: "process_entity h mgr a = (r, n)"
    by (cases "process_entity h mgr a")
  from process_entity_view [of h mgr a] p have v: "same_view h n mgr" by simp
  show ?case
  proof (cases r)
    case (Inl err)
    with p Cons.prems show ?thesis by simp
  next
    case (Inr ds)
    with p Cons.prems
    consider "e = a" "d \<in> set ds" | "(e, d) \<in> set (dispatched (discovery_loop h n es))"
      by (auto simp: Let_def)
    then show ?thesis
    proof cases
      case 1
      with p Inr show ?thesis by simp
    next
      case 2
      from Cons.IH [OF 2] process_entity_cong [OF v, of e] show ?thesis by simp
    qed
  qed
qed

lemma dispatched_loop_complete:
  "raised (discovery_loop h mgr es) = None \<Longrightarrow>
   dispatched (discovery_loop h mgr es)
     = concat (map (\<lambda>e. map (Pair e) (dispatches_of (fst (process_entity h mgr e)))) es)"
proof (induction es arbitrary: mgr)
  case Nil
  then show ?case by simp
next
  case (Cons a es)
  obtain r n where p: "process_entity h mgr a = (r, n)"
    by (cases "process_entity h mgr a")
  from process_entity_view [of h mgr a] p have v: "same_view h n mgr" by simp
  show ?case
  proof (cases r)
    case (Inl err)
    with p Cons.prems show ?thesis by simp
  next
    case (Inr ds)
    with p Cons.prems have "raised (discovery_loop h n es) = None"
      by (simp add: Let_def)
    from Cons.IH [OF this]
    have "dispatched (discovery_loop h n es)
            = concat (map (\<lambda>e. map (Pair e) (dispatches_of (fst (process_entity h mgr e)))) es)"
      by (simp add: process_entity_cong [OF v])
    with p Inr show ?thesis by (simp add: Let_def)
  qed
qed

lemma raised_loop_process:
  "raised (discovery_loop h mgr es) = Some err \<Longrightarrow>
   \<exists>e \<in> set es. fst (process_entity h mgr e) = Inl err"
proof (induction es arbitrary: mgr)
  case Nil
  then show ?case by simp
next
  case (Cons a es)
  obtain r n where p: "process_entity h mgr a = (r, n)"
    by (cases "process_entity h mgr a")
  from process_entity_view [of h mgr a] p have v: "same_view h n mgr" by simp
  show ?case
  proof (cases r)
    case (Inl err')
    with p Cons.prems show ?thesis by simp
  next
    case (Inr ds)
    with p Cons.prems have "raised (discovery_loop h n es) = Some err"
      by (simp add: Let_def)
    from Cons.IH [OF this] show ?thesis
      by (auto simp: process_entity_cong [OF v])
  qed
qed

lemma discover_entity_falsy:
  "autodiscover_model h (Some e) = Inr mo \<Longrightarrow> falsy_identity mo \<Longrightarrow>
   discover_entity h mgr e = Inr []"
  by (auto simp: discover_entity_def falsy_identity_def split: option.splits)

lemma process_entity_dispatches:
  "dispatches_of (fst (process_entity h mgr e)) \<noteq> [] \<Longrightarrow>
   fst (should_process_entity h mgr e) = Inr True
   \<and> dispatches_of (fst (process_entity h mgr e)) = dispatches_of (discover_entity h mgr e)"
  by (auto simp: process_entity_fst split: sum.splits if_splits)

text \<open>
  Claim C10. If the identity resolved for a registry entry is \<^verbatim>\<open>None\<close>, or its
  manufacturer is \<^verbatim>\<open>None\<close> or empty, or its model is empty, the sweep makes no dispatch
  for that entry. This covers a device whose manufacturer is \<^verbatim>\<open>None\<close>:
  \<open>has_manufacturer_and_model_information\<close> accepts it (\<^verbatim>\<open>str(None)\<close> is not empty), and
  the test in \<^verbatim>\<open>start_discovery\<close> then skips the entry.
\<close>

theorem falsy_identity_not_dispatched:
  "(autodiscover_model h (Some e) = Inr mo \<and> falsy_identity mo
      \<longrightarrow> (\<forall>d. (e, d) \<notin> set (dispatched (start_discovery h mgr))))
   \<and> (device_registry_get h (device_id e) = Some dev \<and> dev_manufacturer dev = None
        \<and> py_str (dev_model dev) \<noteq> []
      \<longrightarrow> has_manufacturer_and_model_information h e
          \<and> (\<forall>d. (e, d) \<notin> set (dispatched (start_discovery h mgr))))"
proof -
  have main: "(e, d) \<notin> set (dispatched (start_discovery h mgr))"
    if a: "autodiscover_model h (Some e) = Inr mo" and f: "falsy_identity mo" for mo d
  proof
    assume "(e, d) \<in> set (dispatched (start_discovery h mgr))"
    then have m: "d \<in> set (dispatches_of (fst (process_entity h mgr e)))"
      unfolding start_discovery_def by (rule dispatched_loop_mem [THEN conjunct2])
    then have "dispatches_of (fst (process_entity h mgr e)) \<noteq> []" by auto
    from process_entity_dispatches [OF this] m discover_entity_falsy [OF a f, of mgr]
    show False by simp
  qed
  have none: "has_manufacturer_and_model_information h e
     \<and> autodiscover_model h (Some e)
         = Inr (Some \<lparr>manufacturer = None, model = replace_slash (py_str (dev_model dev))\<rparr>)"
    if "device_registry_get h (device_id e) = Some dev" "dev_manufacturer dev = None"
       "py_str (dev_model dev) \<noteq> []"
    using that
    by (simp add: has_manufacturer_and_model_information_def autodiscover_model_def
        aliases_get_def Let_def)
  show ?thesis
  proof (intro conjI impI allI)
    fix d assume "autodiscover_model h (Some e) = Inr mo \<and> falsy_identity mo"
    then show "(e, d) \<notin> set (dispatched (start_discovery h mgr))"
      using main by blast
  next
    assume h: "device_registry_get h (device_id e) = Some dev \<and> dev_manufacturer dev = None
        \<and> py_str (dev_model dev) \<noteq> []"
    with none show "has_manufacturer_and_model_information h e" by simp
  next
    fix d
    assume h: "device_registry_get h (device_id e) = Some dev \<and> dev_manufacturer dev = None
        \<and> py_str (dev_model dev) \<noteq> []"
    with none have "autodiscover_model h (Some e)
         = Inr (Some \<lparr>manufacturer = None, model = replace_slash (py_str (dev_model dev))\<rparr>)"
      by simp
    moreover have "falsy_identity (Some \<lparr>manufacturer = None, model = replace_slash (py_str (dev_model dev))\<rparr>)"
      by (simp add: falsy_identity_def)
    ultimately show "(e, d) \<notin> set (dispatched (start_discovery h mgr))"
      by (rule main)
  qed
qed

theorem falsy_identity_not_dispatched_witness:
  "device_registry_get ex_hass (device_id ex_anon)
      = Some \<lparr>dev_manufacturer = None, dev_model = Some ''LCT001''\<rparr>
   \<and> has_manufacturer_and_model_information (ex_hass\<lparr>entities := [ex_anon, ex_bulb]\<rparr>) ex_anon
   \<and> autodiscover_model (ex_hass\<lparr>entities := [ex_anon, ex_bulb]\<rparr>) (Some ex_anon)
       = Inr (Some \<lparr>manufacturer = None, model = ''LCT001''\<rparr>)
   \<and> falsy_identity (Some \<lparr>manufacturer = None, model = ''LCT001''\<rparr>)
   \<and> (\<forall>d. (ex_anon, d) \<notin> set (dispatched (start_discovery (ex_hass\<lparr>entities := [ex_anon, ex_bulb]\<rparr>) (init_manager []))))
   \<and> map (entity_id \<circ> fst) (dispatched (start_discovery (ex_hass\<lparr>entities := [ex_anon, ex_bulb]\<rparr>) (init_manager [])))
       = [''light.bulb'', ''light.bulb'']"
  using falsy_identity_not_dispatched [of "ex_hass\<lparr>entities := [ex_anon, ex_bulb]\<rparr>" ex_anon
      "Some \<lparr>manufacturer = None, model = ''LCT001''\<rparr>" "init_manager []"
      "\<lparr>dev_manufacturer = None, dev_model = Some ''LCT001''\<rparr>"]
  by (simp add: eval_defs ex_defs falsy_identity_def SENSOR_DOMAIN_def LIGHT_DOMAIN_def MANUFACTURER_WLED_def)

subsection \<open>What identity resolution returns\<close>

text \<open>The model of a returned identity is never empty and holds no \<open>/\<close>; the
  manufacturer is a non-empty string, or \<^verbatim>\<open>None\<close>.\<close>

lemma autodiscover_model_fields:
  assumes "autodiscover_model h eo = Inr (Some mi)"
  shows "model mi \<noteq> [] \<and> CHR ''/'' \<notin> set (model mi)
         \<and> (manufacturer mi = None \<or> (\<exists>m. manufacturer mi = Some m \<and> m \<noteq> []))"
  using assms
  by (auto simp: autodiscover_model_def has_manufacturer_and_model_information_def Let_def
        aliases_get_def slash_not_in_replace_slash replace_slash_nonempty truthy_def py_str_def
      split: option.splits if_splits)


text \<open>
  Claim C9 says that both fields of every returned identity are non-empty. For a device
  whose manufacturer is \<^verbatim>\<open>None\<close> and whose model is \<open>LCT001\<close>, the test
  \<^verbatim>\<open>len(str(device_entry.manufacturer)) == 0\<close> sees the four letters of \<^verbatim>\<open>str(None)\<close>,
  and \<open>autodiscover_model\<close> returns an identity whose manufacturer is \<^verbatim>\<open>None\<close>.
\<close>

theorem autodiscover_model_manufacturer_None:
  "has_manufacturer_and_model_information ex_hass ex_anon
   \<and> autodiscover_model ex_hass (Some ex_anon)
       = Inr (Some \<lparr>manufacturer = None, model = ''LCT001''\<rparr>)"
  by (simp add: eval_defs ex_defs)

subsection \<open>Exceptions during a sweep\<close>

lemma ex_names [simp]:
  "re_search_master_segment ''Light Strip Segment 1''"
  "\<not> re_search_master_segment ''Living Room Strip''"
  "\<not> re_search_master_segment ''Bulb''"
  by code_simp+

lemma discover_entity_no_raise:
  assumes "\<forall>err. create_source_entity h (entity_id e) \<noteq> Inl err"
    and "\<forall>mi err. get_power_profile h mi = Inl err \<longrightarrow> err = ModelNotSupported"
  shows "discover_entity h mgr e \<noteq> Inl err"
proof -
  from assms(1) obtain src where s: "create_source_entity h (entity_id e) = Inr src"
    by (cases "create_source_entity h (entity_id e)") auto
  have g: "get_power_profile h mi = Inl ModelNotSupported \<or> (\<exists>p. get_power_profile h mi = Inr p)" for mi
    using assms(2) by (cases "get_power_profile h mi") auto
  show ?thesis
  proof (cases "autodiscover_model h (Some e)")
    case (Inl a)
    then show ?thesis by (simp add: autodiscover_model_never_raises)
  next
    case (Inr mo)
    show ?thesis
    proof (cases mo)
      case None
      with Inr show ?thesis by (simp add: discover_entity_def)
    next
      case (Some mi)
      with Inr s g [of mi] show ?thesis
        by (auto simp: discover_entity_def split: if_splits)
    qed
  qed
qed

text \<open>
  Claim C6, as amended. The only exception \<^verbatim>\<open>start_discovery\<close> catches is
  \<^verbatim>\<open>ModelNotSupported\<close> from the library look-up: when source-entity creation raises for
  no registry entry, the library look-up raises nothing else and the index of manually
  configured entities can be built, the sweep ends without exception and has made, for
  every registry entry in order, the dispatches of the pass for that entry.
\<close>

theorem model_not_supported_contained:
  assumes cse: "\<forall>e \<in> set (entities h). \<forall>err. create_source_entity h (entity_id e) \<noteq> Inl err"
    and gpp: "\<forall>mi err. get_power_profile h mi = Inl err \<longrightarrow> err = ModelNotSupported"
    and idx: "\<forall>err. effective_index h mgr \<noteq> Inl err"
  shows "raised (start_discovery h mgr) = None
       \<and> dispatched (start_discovery h mgr)
           = concat (map (\<lambda>e. map (Pair e) (dispatches_of (fst (process_entity h mgr e))))
                         (entities h))"
proof -
  have "raised (start_discovery h mgr) = None"
  proof (cases "raised (start_discovery h mgr)")
    case None
    then show ?thesis .
  next
    case (Some err)
    then obtain e where e: "e \<in> set (entities h)" and r: "fst (process_entity h mgr e) = Inl err"
      unfolding start_discovery_def by (blast dest: raised_loop_process)
    from e cse have "\<forall>err. create_source_entity h (entity_id e) \<noteq> Inl err" by blast
    from discover_entity_no_raise [OF this gpp] have "discover_entity h mgr e \<noteq> Inl err" .
    with r idx have False
      by (auto simp: process_entity_fst should_process_entity_fst split: sum.splits if_splits)
    then show ?thesis ..
  qed
  then show ?thesis
    unfolding start_discovery_def by (simp add: dispatched_loop_complete)
qed

theorem model_not_supported_contained_witness:
  "get_power_profile ex_hass \<lparr>manufacturer = Some ''WLED'', model = ''FOSS''\<rparr> = Inl ModelNotSupported
   \<and> raised (start_discovery (ex_hass\<lparr>entities := [ex_segment, ex_bulb]\<rparr>) (init_manager [])) = None
   \<and> map (entity_id \<circ> fst)
        (dispatched (start_discovery (ex_hass\<lparr>entities := [ex_segment, ex_bulb]\<rparr>) (init_manager [])))
       = [''light.bulb'', ''light.bulb'']"
  using model_not_supported_contained [of "ex_hass\<lparr>entities := [ex_segment, ex_bulb]\<rparr>" "init_manager []"]
  by (simp add: eval_defs ex_defs effective_index_def dispatches_of_def
        SENSOR_DOMAIN_def LIGHT_DOMAIN_def MANUFACTURER_WLED_def)

text \<open>Source-entity creation raises for the first of two lights: the exception leaves
  \<^verbatim>\<open>start_discovery\<close>, and the second light, which alone is dispatched, is never
  reached. The same happens when the library look-up raises something other than
  \<^verbatim>\<open>ModelNotSupported\<close> for the first light.\<close>

theorem failure_containment_counterexample:
  "raised (start_discovery ex_hass_failing (init_manager [])) = Some (OtherError ''source entity'')
   \<and> dispatched (start_discovery ex_hass_failing (init_manager [])) = []
   \<and> map (entity_id \<circ> fst)
        (dispatched (start_discovery (ex_hass_failing\<lparr>entities := [ex_bulb]\<rparr>) (init_manager [])))
       = [''light.bulb'', ''light.bulb'']
   \<and> raised (start_discovery ex_hass_library_failing (init_manager []))
       = Some (OtherError ''library'')
   \<and> dispatched (start_discovery ex_hass_library_failing (init_manager [])) = []
   \<and> map (entity_id \<circ> fst)
        (dispatched (start_discovery (ex_hass_library_failing\<lparr>entities := [ex_bulb]\<rparr>)
           (init_manager [])))
       = [''light.bulb'', ''light.bulb'']"
  by (simp add: eval_defs ex_defs ex_hass_failing_def ex_hass_library_failing_def
        SENSOR_DOMAIN_def LIGHT_DOMAIN_def MANUFACTURER_WLED_def)

text \<open>In general: an exception that leaves the pass for some registry entry ends the
  sweep with an exception (the one of the first entry whose pass raises).\<close>

lemma discovery_loop_propagates:
  "e \<in> set es \<Longrightarrow> fst (process_entity h mgr e) = Inl err \<Longrightarrow>
   raised (discovery_loop h mgr es) \<noteq> None"
proof (induction es arbitrary: mgr)
  case Nil
  then show ?case by simp
next
  case (Cons a es)
  obtain r n where p: "process_entity h mgr a = (r, n)"
    by (cases "process_entity h mgr a")
  from process_entity_view [of h mgr a] p have v: "same_view h n mgr" by simp
  show ?case
  proof (cases r)
    case (Inl err')
    with p show ?thesis by simp
  next
    case (Inr ds)
    with p Cons.prems have "e \<in> set es" by auto
    moreover from Cons.prems(2) process_entity_cong [OF v, of e]
    have "fst (process_entity h n e) = Inl err" by simp
    ultimately have "raised (discovery_loop h n es) \<noteq> None" by (rule Cons.IH)
    with p Inr show ?thesis by (simp add: Let_def)
  qed
qed

subsection \<open>The search for the two words\<close>

text \<open>The search succeeds exactly when the name has a substring that is, letter case
  ignored, \<open>master\<close> or \<open>segment\<close>.\<close>

lemma starts_with_ci_iff:
  "starts_with_ci w s \<longleftrightarrow> (\<exists>u post. s = u @ post \<and> map lower_char u = w)"
proof
  assume "starts_with_ci w s"
  then have "s = take (length w) s @ drop (length w) s \<and> map lower_char (take (length w) s) = w"
    by (simp add: starts_with_ci_def)
  then show "\<exists>u post. s = u @ post \<and> map lower_char u = w" by blast
next
  assume "\<exists>u post. s = u @ post \<and> map lower_char u = w"
  then obtain u post where "s = u @ post" "map lower_char u = w" by blast
  moreover from this have "length u = length w" by (metis length_map)
  ultimately show "starts_with_ci w s" by (simp add: starts_with_ci_def)
qed

lemma search_ci_iff:
  "search_ci ws s \<longleftrightarrow> (\<exists>pre u post. s = pre @ u @ post \<and> map lower_char u \<in> set ws)"
proof (induction s)
  case Nil
  then show ?case by (auto simp: starts_with_ci_iff)
next
  case (Cons c cs)
  show ?case
  proof
    assume "search_ci ws (c # cs)"
    then consider w where "w \<in> set ws" "starts_with_ci w (c # cs)" | "search_ci ws cs"
      by auto
    then show "\<exists>pre u post. c # cs = pre @ u @ post \<and> map lower_char u \<in> set ws"
    proof cases
      case 1
      then obtain u post where "c # cs = u @ post" "map lower_char u = w"
        by (auto simp: starts_with_ci_iff)
      with 1 have "c # cs = [] @ u @ post \<and> map lower_char u \<in> set ws" by simp
      then show ?thesis by blast
    next
      case 2
      with Cons.IH obtain pre u post where "cs = pre @ u @ post" "map lower_char u \<in> set ws"
        by blast
      then have "c # cs = (c # pre) @ u @ post \<and> map lower_char u \<in> set ws" by simp
      then show ?thesis by blast
    qed
  next
    assume "\<exists>pre u post. c # cs = pre @ u @ post \<and> map lower_char u \<in> set ws"
    then obtain pre u post where s: "c # cs = pre @ u @ post" and m: "map lower_char u \<in> set ws"
      by blast
    show "search_ci ws (c # cs)"
    proof (cases pre)
      case Nil
      with s have "c # cs = u @ post" by simp
      with m have "starts_with_ci (map lower_char u) (c # cs)"
        by (auto simp: starts_with_ci_iff)
      with m show ?thesis by auto
    next
      case (Cons a pre')
      with s have "cs = pre' @ u @ post" by simp
      with m Cons.IH have "search_ci ws cs" by blast
      then show ?thesis by simp
    qed
  qed
qed

lemma re_search_master_segment_iff:
  "re_search_master_segment s \<longleftrightarrow>
     (\<exists>pre u post. s = pre @ u @ post
        \<and> (map lower_char u = ''master'' \<or> map lower_char u = ''segment''))"
  by (simp add: re_search_master_segment_def search_ci_iff)

subsection \<open>The rule for WLED lights\<close>

text \<open>The library look-up is read by neither the eligibility check, nor identity
  resolution, nor the dispatch.\<close>

lemma load_get_power_profile [simp]:
  "load_manually_configured_entities (h\<lparr>get_power_profile := g\<rparr>) mgr
     = load_manually_configured_entities h mgr"
  by (simp add: load_manually_configured_entities_def)

lemma effective_index_get_power_profile [simp]:
  "effective_index (h\<lparr>get_power_profile := g\<rparr>) mgr = effective_index h mgr"
  by (simp add: effective_index_def split: option.splits list.splits)

lemma identity_get_power_profile [simp]:
  "has_manufacturer_and_model_information (h\<lparr>get_power_profile := g\<rparr>) e
     = has_manufacturer_and_model_information h e"
  "aliases_get (h\<lparr>get_power_profile := g\<rparr>) m = aliases_get h m"
  by (simp_all add: has_manufacturer_and_model_information_def aliases_get_def
      split: option.splits)

lemma get_power_profile_irrelevant [simp]:
  "fst (should_process_entity (h\<lparr>get_power_profile := g\<rparr>) mgr e)
     = fst (should_process_entity h mgr e)"
  "autodiscover_model (h\<lparr>get_power_profile := g\<rparr>) eo = autodiscover_model h eo"
  "init_entity_discovery (h\<lparr>get_power_profile := g\<rparr>) mgr src p x
     = init_entity_discovery h mgr src p x"
  by (simp_all add: should_process_entity_fst reaches_check_def autodiscover_model_def
        init_entity_discovery_def cong: option.case_cong if_cong)

lemma init_entity_discovery_vendor:
  "init_entity_discovery h mgr src None
     (Some [(CONF_MODE, CalculationStrategy_WLED), (CONF_MANUFACTURER, VStr m),
            (CONF_MODEL, VStr mo)])
   = (if \<exists>c \<in> set (config_entries h).
            unique_id c = se_unique_id src
            \<or> unique_id c = Some (''pc_'' @ py_str (se_unique_id src))
      then []
      else [CreateFlow DOMAIN SOURCE_INTEGRATION_DISCOVERY
              [(CONF_ENTITY_ID, VStr (se_entity_id src)),
               (DISCOVERY_SOURCE_ENTITY, VSourceEntity src),
               (CONF_MODE, CalculationStrategy_WLED),
               (CONF_MANUFACTURER, VStr m),
               (CONF_MODEL, VStr mo)]])"
  by (auto simp: init_entity_discovery_def Let_def filter_empty_conv key_defs)

lemma init_entity_discovery_library:
  "d \<in> set (init_entity_discovery h mgr src (Some p) (Some [])) \<Longrightarrow>
   map_of (dispatch_data d) CONF_MODE = None
   \<and> map_of (dispatch_data d) DISCOVERY_POWER_PROFILE = Some (VPowerProfile p)"
  by (auto simp: init_entity_discovery_def Let_def key_defs split: if_splits)

text \<open>
  Claim C7, as amended. Take a registry entry that passes the eligibility check, whose
  resolved identity has the manufacturer \<open>MANUFACTURER_WLED\<close> and a non-empty model,
  whose domain is \<open>light\<close> and whose source entity is created without exception. If its
  display name contains neither \<open>master\<close> nor \<open>segment\<close> (letter case ignored), the pass
  for it does not depend on the library look-up (whatever \<open>g\<close> is put in its place),
  and hands to the dispatch one record without profile, with the mode marker, the
  manufacturer and the model; that record is dispatched unless the dedup of claim C2
  finds a configuration entry, in which case nothing is dispatched. If the name does
  contain one of the two words, no dispatch for the entry carries the mode marker: each
  one carries a profile of the library.
\<close>

theorem wled_rule:
  assumes cand: "fst (should_process_entity h mgr e) = Inr True"
    and ident: "autodiscover_model h (Some e) = Inr (Some mi)"
      "manufacturer mi = Some MANUFACTURER_WLED" "model mi \<noteq> []"
    and light: "domain e = LIGHT_DOMAIN"
    and src: "create_source_entity h (entity_id e) = Inr src"
  shows "(\<not> re_search_master_segment (py_str (original_name e)) \<longrightarrow>
            (\<forall>g. fst (process_entity (h\<lparr>get_power_profile := g\<rparr>) mgr e)
               = Inr (if \<exists>c \<in> set (config_entries h).
                           unique_id c = se_unique_id src
                           \<or> unique_id c = Some (''pc_'' @ py_str (se_unique_id src))
                      then []
                      else [CreateFlow DOMAIN SOURCE_INTEGRATION_DISCOVERY
                              [(CONF_ENTITY_ID, VStr (se_entity_id src)),
                               (DISCOVERY_SOURCE_ENTITY, VSourceEntity src),
                               (CONF_MODE, CalculationStrategy_WLED),
                               (CONF_MANUFACTURER, VStr MANUFACTURER_WLED),
                               (CONF_MODEL, VStr (model mi))]])))
       \<and> (re_search_master_segment (py_str (original_name e)) \<longrightarrow>
            (\<forall>d \<in> set (dispatches_of (fst (process_entity h mgr e))).
               map_of (dispatch_data d) CONF_MODE = None
               \<and> map_of (dispatch_data d) DISCOVERY_POWER_PROFILE \<noteq> None))"
proof -
  have w: "MANUFACTURER_WLED \<noteq> []" by (simp add: MANUFACTURER_WLED_def)
  have vendor: "fst (process_entity (h\<lparr>get_power_profile := g\<rparr>) mgr e)
               = Inr (if \<exists>c \<in> set (config_entries h).
                           unique_id c = se_unique_id src
                           \<or> unique_id c = Some (''pc_'' @ py_str (se_unique_id src))
                      then []
                      else [CreateFlow DOMAIN SOURCE_INTEGRATION_DISCOVERY
                              [(CONF_ENTITY_ID, VStr (se_entity_id src)),
                               (DISCOVERY_SOURCE_ENTITY, VSourceEntity src),
                               (CONF_MODE, CalculationStrategy_WLED),
                               (CONF_MANUFACTURER, VStr MANUFACTURER_WLED),
                               (CONF_MODEL, VStr (model mi))]])"
    if n: "\<not> re_search_master_segment (py_str (original_name e))" for g
    using cand ident light src n w
    by (simp add: process_entity_fst discover_entity_def init_entity_discovery_vendor)
  have library: "map_of (dispatch_data d) CONF_MODE = None
               \<and> map_of (dispatch_data d) DISCOVERY_POWER_PROFILE \<noteq> None"
    if y: "re_search_master_segment (py_str (original_name e))"
      and d: "d \<in> set (dispatches_of (fst (process_entity h mgr e)))" for d
  proof -
    from cand ident src y w d
    obtain p where "d \<in> set (init_entity_discovery h mgr src (Some p) (Some []))"
      by (auto simp: process_entity_fst discover_entity_def
          split: sum.splits error.splits if_splits)
    from init_entity_discovery_library [OF this] show ?thesis by simp
  qed
  from vendor library show ?thesis by blast
qed

theorem wled_rule_witness:
  "fst (process_entity (ex_hass\<lparr>get_power_profile := (\<lambda>mi. Inl (OtherError ''library''))\<rparr>)
          (init_manager []) ex_strip)
     = Inr [CreateFlow ''powercalc'' ''integration_discovery''
              [(''entity_id'', VStr ''light.strip''),
               (''source_entity'',
                VSourceEntity \<lparr>se_entity_id = ''light.strip'',
                                se_unique_id = Some ''uid_light.strip''\<rparr>),
               (''mode'', CalculationStrategy_WLED),
               (''manufacturer'', VStr ''WLED''),
               (''model'', VStr ''FOSS'')]]
   \<and> re_search_master_segment (py_str (original_name ex_segment))
   \<and> map (\<lambda>d. (map_of (dispatch_data d) ''mode'', map_of (dispatch_data d) ''power_profile''))
        (dispatches_of (fst (process_entity ex_hass_any_profile (init_manager []) ex_segment)))
       = [(None, Some (VPowerProfile ex_profile)), (None, Some (VPowerProfile ex_profile))]"
  using wled_rule [of ex_hass "init_manager []" ex_strip
          "\<lparr>manufacturer = Some ''WLED'', model = ''FOSS''\<rparr>"
          "\<lparr>se_entity_id = ''light.strip'', se_unique_id = Some ''uid_light.strip''\<rparr>"]
        wled_rule [of ex_hass_any_profile "init_manager []" ex_segment
          "\<lparr>manufacturer = Some ''WLED'', model = ''FOSS''\<rparr>"
          "\<lparr>se_entity_id = ''light.strip_segment_1'',
            se_unique_id = Some ''uid_light.strip_segment_1''\<rparr>"]
  by (simp add: eval_defs ex_defs ex_hass_any_profile_def dispatches_of_def key_defs
        DOMAIN_def SOURCE_INTEGRATION_DISCOVERY_def
        SENSOR_DOMAIN_def LIGHT_DOMAIN_def MANUFACTURER_WLED_def)

text \<open>A WLED light named \<open>Living Room Strip\<close> that is a candidate with a resolved
  identity, and for which a configuration entry with its unique id exists: the sweep
  ends without exception and has dispatched nothing.\<close>

theorem wled_rule_counterexample:
  "fst (should_process_entity ex_hass_configured (init_manager []) ex_strip) = Inr True
   \<and> autodiscover_model ex_hass_configured (Some ex_strip)
       = Inr (Some \<lparr>manufacturer = Some MANUFACTURER_WLED, model = ''FOSS''\<rparr>)
   \<and> domain ex_strip = LIGHT_DOMAIN
   \<and> \<not> re_search_master_segment (py_str (original_name ex_strip))
   \<and> raised (start_discovery ex_hass_configured (init_manager [])) = None
   \<and> dispatched (start_discovery ex_hass_configured (init_manager [])) = []"
  by (simp add: eval_defs ex_defs ex_hass_configured_def
        SENSOR_DOMAIN_def LIGHT_DOMAIN_def MANUFACTURER_WLED_def SOURCE_USER_def)

subsection \<open>Manually configured entities\<close>













subsection \<open>The life of the index\<close>

text \<open>A pass changes the manager only in the membership test; a non-empty cached index
  is never replaced; an index that is missing or empty is loaded by the first pass that
  reaches the membership test.\<close>

lemma process_entity_snd:
  "snd (process_entity h mgr e) = snd (should_process_entity h mgr e)"
  by (simp add: process_entity_def split: prod.splits sum.splits)

lemma should_process_entity_snd:
  "snd (should_process_entity h mgr e)
     = (if reaches_check h e then snd (is_user_configured h mgr (entity_id e)) else mgr)"
  by (auto simp: should_process_entity_def reaches_check_def split: prod.splits sum.splits)

lemma process_entity_cached:
  "manually_configured_entities mgr = Some (x # xs) \<Longrightarrow> snd (process_entity h mgr e) = mgr"
  by (simp add: process_entity_snd should_process_entity_snd is_user_configured_def)

lemma process_entity_loads:
  assumes "manually_configured_entities mgr = None \<or> manually_configured_entities mgr = Some []"
    and "load_manually_configured_entities h mgr = Inr l"
  shows "snd (process_entity h mgr e)
           = (if reaches_check h e
              then mgr\<lparr>manually_configured_entities := Some l, load_count := load_count mgr + 1\<rparr>
              else mgr)"
  using assms
  by (auto simp: process_entity_snd should_process_entity_snd is_user_configured_def)

lemma discovery_loop_manager_Cons:
  "manager (discovery_loop h mgr (e # es))
     = (case fst (process_entity h mgr e) of
          Inl err \<Rightarrow> snd (process_entity h mgr e)
        | Inr ds \<Rightarrow> manager (discovery_loop h (snd (process_entity h mgr e)) es))"
  by (simp add: Let_def split: prod.splits sum.splits)

lemma discovery_loop_cached:
  "manually_configured_entities mgr = Some (x # xs) \<Longrightarrow>
   manager (discovery_loop h mgr es) = mgr"
proof (induction es)
  case Nil
  then show ?case by simp
next
  case (Cons e es)
  then show ?case
    by (simp only: discovery_loop_manager_Cons process_entity_cached split: sum.splits) simp
qed

lemma discovery_loop_loads_once:
  assumes "manually_configured_entities mgr = None \<or> manually_configured_entities mgr = Some []"
    and "load_manually_configured_entities h mgr = Inr l" and "l \<noteq> []"
  shows "manager (discovery_loop h mgr es)
           = (if \<exists>e \<in> set es. reaches_check h e
              then mgr\<lparr>manually_configured_entities := Some l, load_count := load_count mgr + 1\<rparr>
              else mgr)"
proof (induction es)
  case Nil
  then show ?case by simp
next
  case (Cons e es)
  let ?m = "mgr\<lparr>manually_configured_entities := Some l, load_count := load_count mgr + 1\<rparr>"
  from assms(3) obtain x xs where l: "l = x # xs" by (cases l) auto
  show ?case
  proof (cases "reaches_check h e")
    case True
    then have s: "snd (process_entity h mgr e) = ?m"
      using process_entity_loads [OF assms(1,2), of e] by simp
    have "manually_configured_entities ?m = Some (x # xs)" by (simp add: l)
    from discovery_loop_cached [OF this] have "manager (discovery_loop h ?m es) = ?m" .
    with True s show ?thesis
      by (simp only: discovery_loop_manager_Cons split: sum.splits) simp
  next
    case False
    then have s: "snd (process_entity h mgr e) = mgr"
      using process_entity_loads [OF assms(1,2), of e] by simp
    from False have "fst (process_entity h mgr e) = Inr []"
      by (simp add: process_entity_fst should_process_entity_fst)
    with False s Cons.IH show ?thesis
      by (simp only: discovery_loop_manager_Cons) simp
  qed
qed

text \<open>
  Claim C5, as amended. On a manager as \<^verbatim>\<open>__init__\<close> leaves it, when the index that
  loading yields is not empty and some registry entry reaches the eligibility check, the
  sweep loads the index exactly once and ends with it cached: every later membership
  test of the sweep is answered from the cache. A later sweep on the same manager, in
  whatever environment, does not load again and leaves the cached index as it is.
\<close>

theorem index_built_once_then_kept:
  assumes "manually_configured_entities mgr = None"
    and "load_manually_configured_entities h mgr = Inr l" and "l \<noteq> []"
    and "\<exists>e \<in> set (entities h). reaches_check h e"
  shows "manager (start_discovery h mgr)
           = mgr\<lparr>manually_configured_entities := Some l, load_count := load_count mgr + 1\<rparr>
       \<and> (\<forall>h'. manager (start_discovery h' (manager (start_discovery h mgr)))
                  = manager (start_discovery h mgr))"
proof -
  let ?m = "mgr\<lparr>manually_configured_entities := Some l, load_count := load_count mgr + 1\<rparr>"
  from assms(1) have f: "manually_configured_entities mgr = None
                         \<or> manually_configured_entities mgr = Some []" by simp
  from discovery_loop_loads_once [OF f assms(2,3), of "entities h"] assms(4)
  have 1: "manager (start_discovery h mgr) = ?m"
    by (simp add: start_discovery_def)
  from assms(3) obtain x xs where l: "l = x # xs" by (cases l) auto
  then have "manually_configured_entities ?m = Some (x # xs)" by simp
  from discovery_loop_cached [OF this]
  have "manager (start_discovery h' ?m) = ?m" for h'
    by (simp add: start_discovery_def)
  with 1 show ?thesis by simp
qed

theorem index_built_once_then_kept_witness:
  "load_manually_configured_entities ex_hass_before (init_manager []) = Inr [YStr ''light.strip'']
   \<and> reaches_check ex_hass_before ex_strip
   \<and> manager (start_discovery ex_hass_before (init_manager []))
       = \<lparr>ha_config = [], manually_configured_entities = Some [YStr ''light.strip''],
          load_count = 1\<rparr>
   \<and> manager (start_discovery ex_hass_before
                (manager (start_discovery ex_hass_before (init_manager []))))
       = \<lparr>ha_config = [], manually_configured_entities = Some [YStr ''light.strip''],
          load_count = 1\<rparr>"
proof -
  have m: "manually_configured_entities (init_manager []) = None"
    by (simp add: init_manager_def)
  have l: "load_manually_configured_entities ex_hass_before (init_manager [])
             = Inr [YStr ''light.strip'']"
    by (simp add: load_manually_configured_entities_def dict_get_def ex_hass_before_def
          ex_user_entry_def ex_defs key_defs SOURCE_USER_def SENSOR_DOMAIN_def)
  have r: "reaches_check ex_hass_before ex_strip"
    by (simp add: reaches_check_def ex_hass_before_def ex_defs)
  have "ex_strip \<in> set (entities ex_hass_before)"
    by (simp add: ex_hass_before_def ex_defs)
  with r have e: "\<exists>e \<in> set (entities ex_hass_before). reaches_check ex_hass_before e" ..
  note k = index_built_once_then_kept [OF m l _ e]
  from k [THEN conjunct1] k [THEN conjunct2, rule_format, of ex_hass_before] l r
  show ?thesis by (simp add: init_manager_def)
qed

text \<open>Between two sweeps on one manager the user configures a second light. The second
  sweep still holds the index of the first (one load in all), which lacks that light,
  and dispatches it.\<close>

theorem index_lifecycle_counterexample:
  "load_manually_configured_entities ex_hass_after (init_manager [])
     = Inr [YStr ''light.strip'', YStr ''light.bulb'']
   \<and> manager (start_discovery ex_hass_after
                (manager (start_discovery ex_hass_before (init_manager []))))
       = \<lparr>ha_config = [], manually_configured_entities = Some [YStr ''light.strip''],
          load_count = 1\<rparr>
   \<and> map (entity_id \<circ> fst)
        (dispatched (start_discovery ex_hass_after
                       (manager (start_discovery ex_hass_before (init_manager [])))))
       = [''light.bulb'', ''light.bulb'']"
  by (simp add: eval_defs ex_defs ex_hass_before_def ex_hass_after_def ex_user_entry_def
        key_defs SOURCE_USER_def SENSOR_DOMAIN_def LIGHT_DOMAIN_def MANUFACTURER_WLED_def)

text \<open>An index that loads as the empty list is not kept by the test
  \<^verbatim>\<open>if not self.manually_configured_entities\<close>: three entries that reach the check, three
  loads.\<close>

lemma empty_index_loaded_at_every_check:
  "load_count (manager (start_discovery (ex_hass\<lparr>entities := [ex_anon, ex_anon, ex_anon]\<rparr>)
                          (init_manager []))) = 3"
  by (simp add: eval_defs ex_defs key_defs SOURCE_USER_def SENSOR_DOMAIN_def)

subsection \<open>The recursive scan\<close>

text \<open>Where the scan reaches everything it returns the collection of the
  specification, in the same order; it never returns more values than there are; and
  when it returns as many, it has reached everything.\<close>

lemma scan_eq_spec:
  "scan_reaches_all d \<Longrightarrow> find_entity_ids_in_yaml_config d = spec_values_in_items d"
  "scan_reaches_all_items xs \<Longrightarrow> find_in_list_items xs = spec_values_in_list xs"
proof (induction d and xs rule: find_entity_ids_in_yaml_config_find_in_list_items.induct)
  case 1
  then show ?case by simp
next
  case (2 key "value" rest)
  then show ?case by (cases "value") (auto split: if_splits)
next
  case 3
  then show ?case by simp
next
  case (4 item items)
  then show ?case by (cases item) auto
qed

lemma scan_length_le:
  "length (find_entity_ids_in_yaml_config d) \<le> length (spec_values_in_items d)"
  "length (find_in_list_items xs) \<le> length (spec_values_in_list xs)"
proof (induction d and xs rule: find_entity_ids_in_yaml_config_find_in_list_items.induct)
  case 1
  then show ?case by simp
next
  case (2 key "value" rest)
  then show ?case by (cases "value") (auto split: if_splits)
next
  case 3
  then show ?case by simp
next
  case (4 item items)
  then show ?case by (cases item) auto
qed

lemma scan_length_eq_reaches:
  "length (find_entity_ids_in_yaml_config d) = length (spec_values_in_items d)
     \<Longrightarrow> scan_reaches_all d"
  "length (find_in_list_items xs) = length (spec_values_in_list xs)
     \<Longrightarrow> scan_reaches_all_items xs"
proof (induction d and xs rule: find_entity_ids_in_yaml_config_find_in_list_items.induct)
  case 1
  then show ?case by simp
next
  case (2 key "value" rest)
  from scan_length_le(1) [of rest]
  have r: "length (find_entity_ids_in_yaml_config rest) \<le> length (spec_values_in_items rest)" .
  show ?case
  proof (cases "key = ''entity_id''")
    case True
    with "2.prems" r
    have "spec_entity_id_values value = []"
      and "length (find_entity_ids_in_yaml_config rest) = length (spec_values_in_items rest)"
      by auto
    with True "2.IH"(3) show ?thesis by simp
  next
    case False
    show ?thesis
    proof (cases "value")
      case (YDict d)
      with False "2.prems" r scan_length_le(1) [of d]
      have "length (find_entity_ids_in_yaml_config d) = length (spec_values_in_items d)"
        and "length (find_entity_ids_in_yaml_config rest) = length (spec_values_in_items rest)"
        by auto
      with False YDict "2.IH" show ?thesis by simp
    next
      case (YList xs)
      with False "2.prems" r scan_length_le(2) [of xs]
      have "length (find_in_list_items xs) = length (spec_values_in_list xs)"
        and "length (find_entity_ids_in_yaml_config rest) = length (spec_values_in_items rest)"
        by auto
      with False YList "2.IH" show ?thesis by simp
    qed (use False "2.prems" "2.IH" in auto)
  qed
next
  case 3
  then show ?case by simp
next
  case (4 item items)
  from scan_length_le(2) [of items]
  have r: "length (find_in_list_items items) \<le> length (spec_values_in_list items)" .
  show ?case
  proof (cases item)
    case (YDict d)
    with "4.prems" r scan_length_le(1) [of d]
    have "length (find_entity_ids_in_yaml_config d) = length (spec_values_in_items d)"
      and "length (find_in_list_items items) = length (spec_values_in_list items)"
      by auto
    with YDict "4.IH" show ?thesis by simp
  next
    case (YList ys)
    with "4.prems" r
    have "spec_values_in_list ys = []"
      and "length (find_in_list_items items) = length (spec_values_in_list items)"
      by auto
    with YList "4.IH" show ?thesis by simp
  qed (use "4.prems" "4.IH" in auto)
qed

text \<open>The scan returns the values of all occurrences of the key exactly when none lies
  inside the value of an \<open>entity_id\<close> key or inside a list that is itself an item of a
  list.\<close>

lemma scan_complete_iff:
  "mset (find_entity_ids_in_yaml_config d) = mset (spec_entity_id_values (YDict d))
     \<longleftrightarrow> scan_reaches_all d"
proof
  assume "mset (find_entity_ids_in_yaml_config d) = mset (spec_entity_id_values (YDict d))"
  then have "length (find_entity_ids_in_yaml_config d) = length (spec_values_in_items d)"
    by (metis mset_eq_length spec_entity_id_values.simps(1))
  then show "scan_reaches_all d" by (rule scan_length_eq_reaches)
next
  assume "scan_reaches_all d"
  then show "mset (find_entity_ids_in_yaml_config d) = mset (spec_entity_id_values (YDict d))"
    by (simp add: scan_eq_spec)
qed


lemma scan_complete_example:
  "scan_reaches_all ex_block
   \<and> find_entity_ids_in_yaml_config ex_block
       = [YStr ''light.a'', YStr ''light.b'', YStr ''light.c'']
   \<and> spec_entity_id_values (YDict ex_block)
       = [YStr ''light.a'', YStr ''light.b'', YStr ''light.c'']"
  by (simp add: ex_block_def)

text \<open>
  Claim C4 says that the scan returns the values of all occurrences of the key
  \<open>entity_id\<close>, at any depth across dicts and lists; the docstring of the function says
  that it searches all dicts of a dict with nested lists and dicts. In the block
  \<^verbatim>\<open>{"platform": "powercalc", "entities": [[{"entity_id": "light.a"}]]}\<close> the key occurs
  once, in a dict that is an item of a list inside a list. The inner loop of the scan
  descends into an item only when it is a dict, so the inner list is skipped and the
  scan returns nothing.
\<close>

theorem scan_misses_dict_in_nested_list:
  "ex_block_hidden
     = [(''platform'', YStr ''powercalc''),
        (''entities'', YList [YList [YDict [(''entity_id'', YStr ''light.a'')]]])]
   \<and> find_entity_ids_in_yaml_config ex_block_hidden = []
   \<and> spec_entity_id_values (YDict ex_block_hidden) = [YStr ''light.a'']"
  by (simp add: ex_block_hidden_def)

end
